theory Spec2Isabelle
  imports Complex_Main "HOL-Library.Word" "HOL-Library.Monad_Syntax" "HOL-Library.Log_Nat"
begin

section \<open>Memory blocks\<close>

text \<open>
  The delay line of \<^verbatim>\<open>lsync.c\<close> keeps its samples in a heap block and moves them with
  \<^verbatim>\<open>memcpy\<close>, \<^verbatim>\<open>memmove\<close> and \<^verbatim>\<open>memset\<close>.  A block is the list of its cells; every
  transfer is checked against the bounds of the block, and a transfer that leaves it is
  the value \<open>None\<close> (the C program has undefined behaviour there).  A transfer of zero
  cells touches no memory and always succeeds.  Frame counts are
  \<^verbatim>\<open>jack_nframes_t\<close>, an unsigned 32-bit integer; byte counts are \<^verbatim>\<open>size_t\<close> products
  of a frame count and the sample size and are taken not to wrap (a 64-bit \<^verbatim>\<open>size_t\<close>).
  The samples themselves are only copied and zeroed, so their type is a parameter.
\<close>

type_synonym jack_nframes_t = "32 word"

definition read_cells :: "'a list \<Rightarrow> nat \<Rightarrow> nat \<Rightarrow> 'a list option" where
  "read_cells m off n =
     (if n = 0 then Some []
      else if off + n \<le> length m then Some (take n (drop off m)) else None)"

definition write_cells :: "'a list \<Rightarrow> nat \<Rightarrow> 'a list \<Rightarrow> 'a list option" where
  "write_cells m off xs =
     (if xs = [] then Some m
      else if off + length xs \<le> length m
           then Some (take off m @ xs @ drop (off + length xs) m)
           else None)"

text \<open>
  The same two transfers through a pointer that may be \<^verbatim>\<open>NULL\<close> (the value \<open>None\<close>):
  \<open>peek p off n\<close> reads \<open>n\<close> cells at \<^verbatim>\<open>p + off\<close>, \<open>poke p off xs\<close> writes \<open>xs\<close> there
  and returns the pointer with the new content of its block.
\<close>

definition peek :: "'a list option \<Rightarrow> nat \<Rightarrow> nat \<Rightarrow> 'a list option" where
  "peek p off n =
     (case p of
        None \<Rightarrow> if n = 0 then Some [] else None
      | Some m \<Rightarrow> read_cells m off n)"

definition poke :: "'a list option \<Rightarrow> nat \<Rightarrow> 'a list \<Rightarrow> 'a list option option" where
  "poke p off xs =
     (case p of
        None \<Rightarrow> if xs = [] then Some None else None
      | Some m \<Rightarrow> map_option Some (write_cells m off xs))"

text \<open>
  \<^verbatim>\<open>realloc(p, n * sizeof(sample))\<close>.  The allocator's answer is an input: \<open>None\<close> when it
  returns \<^verbatim>\<open>NULL\<close>, \<open>Some junk\<close> when it returns a block of \<open>n\<close> cells that keeps the old
  content and holds the indeterminate value \<open>junk i\<close> in each new cell \<open>i\<close>.
\<close>

definition realloc :: "'a list option \<Rightarrow> nat \<Rightarrow> (nat \<Rightarrow> 'a) option \<Rightarrow> 'a list option" where
  "realloc p n heap =
     (case heap of
        None \<Rightarrow> None
      | Some junk \<Rightarrow>
          (let old = (case p of None \<Rightarrow> [] | Some m \<Rightarrow> m)
           in Some (take n old @ map junk [length old ..< n])))"

section \<open>The audio delay line\<close>

text \<open>
  \<^verbatim>\<open>struct audio_delay_line\<close>: the field \<^verbatim>\<open>size\<close> is \<open>size_l\<close> here.
\<close>

record 'a audio_delay_line =
  data :: "'a list option"
  size_l :: jack_nframes_t
  alloc_size :: jack_nframes_t
  pos :: jack_nframes_t

definition audio_delay_line_new :: "'a audio_delay_line" where
  "audio_delay_line_new = \<lparr>data = None, size_l = 0, alloc_size = 0, pos = 0\<rparr>"

text \<open>
  \<^verbatim>\<open>audio_delay_line_resize\<close> returns the C return value and the line as the call leaves
  it.  \<^verbatim>\<open>int pos = line->pos + size - (int)line->size\<close> is computed in unsigned 32-bit
  arithmetic and read back as a two's complement \<^verbatim>\<open>int\<close>; \<^verbatim>\<open>size - pos\<close> is unsigned
  again.
\<close>

definition audio_delay_line_resize ::
  "'a::zero audio_delay_line \<Rightarrow> jack_nframes_t \<Rightarrow> (nat \<Rightarrow> 'a) option
     \<Rightarrow> (int \<times> 'a audio_delay_line) option" where
  "audio_delay_line_resize line sz heap =
     (let line1 = (if sz > alloc_size line
                   then line\<lparr>alloc_size := sz, data := realloc (data line) (unat sz) heap\<rparr>
                   else line)
      in if sz > alloc_size line \<and> data line1 = None then Some (1, line1)
         else
           (let pos0 = sint (pos line1 + sz - size_l line1);
                pos1 = (if pos0 < 0 then 0 else pos0);
                posw = (word_of_int pos1 :: jack_nframes_t)
            in do {
                 moved \<leftarrow> peek (data line1) (nat pos1) (unat (sz - posw));
                 d1 \<leftarrow> poke (data line1) (unat (pos line1)) moved;
                 d2 \<leftarrow> (if sz > size_l line1
                        then poke d1 (unat (pos line1)) (replicate (unat (sz - size_l line1)) 0)
                        else Some d1);
                 Some (0, line1\<lparr>data := d2,
                                 pos := (if size_l line1 \<noteq> 0 then posw else 0),
                                 size_l := sz\<rparr>)
               }))"

text \<open>
  \<^verbatim>\<open>audio_delay_line_process\<close> reads \<open>period\<close> samples at \<open>inp\<close> and overwrites the
  \<open>period\<close> cells of the output buffer, whose previous content is \<open>out\<close>.  The input
  buffer, the output buffer and the block of the line are three different blocks.
\<close>

definition audio_delay_line_process ::
  "'a audio_delay_line \<Rightarrow> 'a list \<Rightarrow> 'a list \<Rightarrow> jack_nframes_t
     \<Rightarrow> ('a audio_delay_line \<times> 'a list) option" where
  "audio_delay_line_process line inp out period =
     (let to_swap = (if period > size_l line then size_l line else period)
      in do {
           (line1, out1) \<leftarrow>
             (if size_l line \<noteq> 0 then
                (let chunk1 = (if size_l line - pos line > to_swap then to_swap
                               else size_l line - pos line);
                     chunk2 = to_swap - chunk1
                 in do {
                      a \<leftarrow> peek (data line) (unat (pos line)) (unat chunk1);
                      o1 \<leftarrow> write_cells out 0 a;
                      b \<leftarrow> read_cells inp (unat (period - to_swap)) (unat chunk1);
                      d1 \<leftarrow> poke (data line) (unat (pos line)) b;
                      c \<leftarrow> peek d1 0 (unat chunk2);
                      o2 \<leftarrow> write_cells o1 (unat chunk1) c;
                      e \<leftarrow> read_cells inp (unat (period - chunk2)) (unat chunk2);
                      d2 \<leftarrow> poke d1 0 e;
                      Some (line\<lparr>data := d2, pos := (pos line + to_swap) mod size_l line\<rparr>, o2)
                    })
              else Some (line, out));
           f \<leftarrow> read_cells inp 0 (unat (period - to_swap));
           o3 \<leftarrow> write_cells out1 (unat to_swap) f;
           Some (line1, o3)
         })"

text \<open>
  A line is well formed when its block has \<open>alloc_size\<close> cells (none for a \<^verbatim>\<open>NULL\<close>
  pointer), the delay fits in the block and the read position is inside the delay
  (at 0 for an empty line).  The history of a line is what it will emit, oldest sample
  first: the \<open>size\<close> cells read circularly from \<open>pos\<close>.
\<close>

definition cells :: "'a audio_delay_line \<Rightarrow> 'a list" where
  "cells l = (case data l of None \<Rightarrow> [] | Some m \<Rightarrow> m)"

definition wf_line :: "'a audio_delay_line \<Rightarrow> bool" where
  "wf_line l \<longleftrightarrow>
     length (cells l) = unat (alloc_size l) \<and>
     (data l = None \<longrightarrow> alloc_size l = 0) \<and>
     size_l l \<le> alloc_size l \<and>
     (if size_l l = 0 then pos l = 0 else pos l < size_l l)"

definition history :: "'a audio_delay_line \<Rightarrow> 'a list" where
  "history l =
     (let m = take (unat (size_l l)) (cells l)
      in drop (unat (pos l)) m @ take (unat (pos l)) m)"


text \<open>
  Feeding a line one block after the other, each block with its own output buffer; the
  result is the line at the end and everything that was emitted.
\<close>

fun process_blocks ::
  "'a audio_delay_line \<Rightarrow> ('a list \<times> 'a list) list \<Rightarrow> ('a audio_delay_line \<times> 'a list) option" where
  "process_blocks l [] = Some (l, [])"
| "process_blocks l (b # bs) =
     do {
       (l1, o1) \<leftarrow> audio_delay_line_process l (fst b) (snd b) (of_nat (length (fst b)));
       (l2, os) \<leftarrow> process_blocks l1 bs;
       Some (l2, o1 @ os)
     }"

section \<open>Single-precision arithmetic\<close>

text \<open>
  The latencies of \<^verbatim>\<open>lsync.c\<close> and \<^verbatim>\<open>lset.c\<close> are C \<^verbatim>\<open>float\<close>s.  A finite \<^verbatim>\<open>float\<close> is
  modelled by the real number it denotes, and every operation returns the rounding
  \<open>fl\<close> of its exact result; \<open>fl\<close> is a parameter of the functions below.  For IEEE 754
  single precision with round to nearest, ties to even, each operation rounded on its
  own, \<open>fl\<close> is \<open>binary32\<close> (overflow to infinity is outside the model).
\<close>

definition round_half_even :: "real \<Rightarrow> int" where
  "round_half_even x =
     (let f = \<lfloor>x\<rfloor>; d = x - of_int f
      in if d < 1 / 2 then f else if 1 / 2 < d then f + 1
         else if even f then f else f + 1)"

definition pow2 :: "int \<Rightarrow> real" where
  "pow2 e = (if 0 \<le> e then 2 ^ nat e else 1 / 2 ^ nat (- e))"

text \<open>For \<open>0 < y\<close>, \<open>binade y\<close> is the exponent \<open>e\<close> with \<open>2^e \<le> y < 2^(e+1)\<close>.\<close>

definition binade :: "real \<Rightarrow> int" where
  "binade y = (if 1 \<le> y then bitlen \<lfloor>y\<rfloor> - 1 else - bitlen (\<lceil>1 / y\<rceil> - 1))"

definition binary32 :: "real \<Rightarrow> real" where
  "binary32 x =
     (if x = 0 then 0
      else (let e = max (binade \<bar>x\<bar>) (- 126); u = pow2 (e - 23)
            in sgn x * of_int (round_half_even (\<bar>x\<bar> / u)) * u))"

text \<open>
  What the theorems below need of a rounding: zero is kept and no positive value is
  rounded below zero.
\<close>

definition rounding :: "(real \<Rightarrow> real) \<Rightarrow> bool" where
  "rounding fl \<longleftrightarrow> fl 0 = 0 \<and> (\<forall>x. 0 \<le> x \<longrightarrow> 0 \<le> fl x)"

text \<open>\<^verbatim>\<open>roundf\<close> rounds halves away from zero.\<close>

definition roundf :: "real \<Rightarrow> real" where
  "roundf x = (if 0 \<le> x then of_int \<lfloor>x + 1 / 2\<rfloor> else - of_int \<lfloor>- x + 1 / 2\<rfloor>)"

text \<open>
  Converting a \<^verbatim>\<open>float\<close> to \<^verbatim>\<open>jack_nframes_t\<close> truncates towards zero; the behaviour
  is undefined, here \<open>None\<close>, when the truncated value is not a 32-bit unsigned number.
\<close>

definition nframes_of_float :: "real \<Rightarrow> jack_nframes_t option" where
  "nframes_of_float x =
     (let t = (if 0 \<le> x then \<lfloor>x\<rfloor> else \<lceil>x\<rceil>)
      in if 0 \<le> t \<and> t < 2 ^ 32 then Some (word_of_int t) else None)"

definition float_of_nframes :: "(real \<Rightarrow> real) \<Rightarrow> jack_nframes_t \<Rightarrow> real" where
  "float_of_nframes fl w = fl (real (unat w))"

section \<open>The client\<close>

text \<open>
  The JACK server is seen through the latency range of every port in each direction.
  The fields \<^verbatim>\<open>min\<close> and \<^verbatim>\<open>max\<close> of \<^verbatim>\<open>jack_latency_range_t\<close> are \<open>range_min\<close> and
  \<open>range_max\<close>; a port handle is a number.
\<close>

datatype jack_latency_callback_mode_t = JackCaptureLatency | JackPlaybackLatency

record jack_latency_range_t =
  range_min :: jack_nframes_t
  range_max :: jack_nframes_t

type_synonym jack_port_t = nat

type_synonym jack_ranges = "jack_port_t \<Rightarrow> jack_latency_callback_mode_t \<Rightarrow> jack_latency_range_t"

text \<open>\<^verbatim>\<open>struct port_pair\<close>: the fields \<^verbatim>\<open>input\<close> and \<^verbatim>\<open>output\<close> are \<open>input_port\<close> and \<open>output_port\<close>.\<close>

record 'a port_pair =
  input_port :: jack_port_t
  output_port :: jack_port_t
  line :: "'a audio_delay_line"
  latency :: real
  delay :: jack_nframes_t

text \<open>
  The operations on the two mutexes and the calls of \<^verbatim>\<open>audio_delay_line_resize\<close> are
  recorded, in order, in the field \<open>trace\<close> of the client's state, which is otherwise
  the global variables of \<^verbatim>\<open>lsync.c\<close> (\<^verbatim>\<open>pairs_count\<close> is the length of \<open>pairs\<close>).
\<close>

datatype event =
    Lock_pairs | Unlock_pairs | Resize nat jack_nframes_t
  | Lock_main | Signal_main | Unlock_main

record 'a client =
  equalize_capture :: bool
  equalize_playback :: bool
  keep_maximum :: bool
  latency_coefficient :: real
  pairs :: "'a port_pair list"
  max_latency :: real
  recalc_required :: bool
  trace :: "event list"

text \<open>
  \<^verbatim>\<open>coefficient * range.max + (1 - coefficient) * range.min\<close>, the expression of
  \<^verbatim>\<open>get_port_latency\<close> in \<^verbatim>\<open>lsync.c\<close> and of \<^verbatim>\<open>jack_latency\<close> in \<^verbatim>\<open>lset.c\<close>: the two
  bounds are converted to \<^verbatim>\<open>float\<close>, and the subtraction, the two products and the sum
  are \<^verbatim>\<open>float\<close> operations.
\<close>

definition weighted_latency :: "(real \<Rightarrow> real) \<Rightarrow> real \<Rightarrow> jack_latency_range_t \<Rightarrow> real" where
  "weighted_latency fl c r =
     fl (fl (c * float_of_nframes fl (range_max r))
         + fl (fl (1 - c) * float_of_nframes fl (range_min r)))"

definition get_port_latency ::
  "(real \<Rightarrow> real) \<Rightarrow> real \<Rightarrow> jack_ranges \<Rightarrow> jack_port_t \<Rightarrow> jack_latency_callback_mode_t \<Rightarrow> real" where
  "get_port_latency fl c jack port mode = weighted_latency fl c (jack port mode)"

text \<open>The first loop of \<^verbatim>\<open>recalculate_pair_delays\<close>: the latency of each pair and the maximum.\<close>

definition pair_latency :: "(real \<Rightarrow> real) \<Rightarrow> jack_ranges \<Rightarrow> 'a client \<Rightarrow> 'a port_pair \<Rightarrow> real" where
  "pair_latency fl jack st p =
     (let l0 = 0;
          l1 = (if equalize_capture st
                then fl (l0 + get_port_latency fl (latency_coefficient st) jack (input_port p) JackCaptureLatency)
                else l0);
          l2 = (if equalize_playback st
                then fl (l1 + get_port_latency fl (latency_coefficient st) jack (output_port p) JackPlaybackLatency)
                else l1)
      in l2)"

fun latency_loop ::
  "(real \<Rightarrow> real) \<Rightarrow> jack_ranges \<Rightarrow> 'a client \<Rightarrow> 'a port_pair list \<Rightarrow> real
     \<Rightarrow> 'a port_pair list \<times> real" where
  "latency_loop fl jack st [] m = ([], m)"
| "latency_loop fl jack st (p # ps) m =
     (let p' = p\<lparr>latency := pair_latency fl jack st p\<rparr>;
          m' = (if m < latency p' then latency p' else m);
          (ps', m'') = latency_loop fl jack st ps m'
      in (p' # ps', m''))"

text \<open>
  The second loop, from pair number \<open>i\<close> on: \<open>locked\<close> is \<^verbatim>\<open>lock_acquired\<close>, \<open>heap i\<close> is
  the allocator's answer should the line of pair \<open>i\<close> call \<^verbatim>\<open>realloc\<close>.  The value
  returned by \<^verbatim>\<open>audio_delay_line_resize\<close> is not looked at.
\<close>

fun delay_loop ::
  "(real \<Rightarrow> real) \<Rightarrow> (nat \<Rightarrow> (nat \<Rightarrow> 'a) option) \<Rightarrow> real \<Rightarrow> nat \<Rightarrow> 'a::zero port_pair list
     \<Rightarrow> bool \<Rightarrow> event list \<Rightarrow> ('a port_pair list \<times> bool \<times> event list) option" where
  "delay_loop fl heap m i [] locked tr = Some ([], locked, tr)"
| "delay_loop fl heap m i (p # ps) locked tr =
     (case nframes_of_float (roundf (fl (m - latency p))) of
        None \<Rightarrow> None
      | Some new_delay \<Rightarrow>
          if delay p = new_delay then
            map_option (\<lambda>(ps', r). (p # ps', r)) (delay_loop fl heap m (Suc i) ps locked tr)
          else
            (case audio_delay_line_resize (line p) new_delay (heap i) of
               None \<Rightarrow> None
             | Some (rc, line') \<Rightarrow>
                 map_option (\<lambda>(ps', r). (p\<lparr>line := line', delay := new_delay\<rparr> # ps', r))
                   (delay_loop fl heap m (Suc i) ps True
                      (tr @ (if locked then [] else [Lock_pairs]) @ [Resize i new_delay]))))"

definition recalculate_pair_delays ::
  "(real \<Rightarrow> real) \<Rightarrow> jack_ranges \<Rightarrow> (nat \<Rightarrow> (nat \<Rightarrow> 'a) option) \<Rightarrow> 'a::zero client
     \<Rightarrow> 'a client option" where
  "recalculate_pair_delays fl jack heap st =
     (let m0 = (if keep_maximum st then max_latency st else 0);
          (ps1, m) = latency_loop fl jack st (pairs st) m0
      in case delay_loop fl heap m 0 ps1 False (trace st) of
           None \<Rightarrow> None
         | Some (ps2, locked, tr) \<Rightarrow>
             Some (st\<lparr>pairs := ps2, max_latency := m,
                      recalc_required := (if locked then True else recalc_required st),
                      trace := (if locked
                                then tr @ [Unlock_pairs, Lock_main, Signal_main, Unlock_main]
                                else tr)\<rparr>))"

text \<open>
  The loop of \<^verbatim>\<open>jack_latency\<close>: \<^verbatim>\<open>float delay = pairs[i].delay\<close>, and each
  \<^verbatim>\<open>range.min += delay\<close> converts the bound to \<^verbatim>\<open>float\<close>, adds and converts back.
\<close>

fun publish_loop ::
  "(real \<Rightarrow> real) \<Rightarrow> jack_latency_callback_mode_t \<Rightarrow> 'a port_pair list \<Rightarrow> jack_ranges
     \<Rightarrow> jack_ranges option" where
  "publish_loop fl mode [] jack = Some jack"
| "publish_loop fl mode (p # ps) jack =
     (let d = float_of_nframes fl (delay p);
          get = (if mode = JackCaptureLatency then input_port p else output_port p);
          set = (if mode = JackCaptureLatency then output_port p else input_port p);
          range = jack get mode
      in do {
           mn \<leftarrow> nframes_of_float (fl (float_of_nframes fl (range_min range) + d));
           mx \<leftarrow> nframes_of_float (fl (float_of_nframes fl (range_max range) + d));
           publish_loop fl mode ps
             (jack(set := (jack set)(mode := \<lparr>range_min = mn, range_max = mx\<rparr>)))
         })"

definition jack_latency ::
  "(real \<Rightarrow> real) \<Rightarrow> (nat \<Rightarrow> (nat \<Rightarrow> 'a) option) \<Rightarrow> jack_latency_callback_mode_t
     \<Rightarrow> 'a::zero client \<Rightarrow> jack_ranges \<Rightarrow> ('a client \<times> jack_ranges) option" where
  "jack_latency fl heap mode st jack =
     do {
       st' \<leftarrow> recalculate_pair_delays fl jack heap st;
       jack' \<leftarrow> publish_loop fl mode (pairs st') jack;
       Some (st', jack')
     }"


section \<open>Lines at the limit of the 32-bit frame counts\<close>

text \<open>
  Two well-formed lines of 4294967295 samples of silence: \<open>far_line\<close> has its read
  position at 2147483648, \<open>wide_line\<close> at the last but one cell.
\<close>

definition far_line :: "int audio_delay_line" where
  "far_line = \<lparr>data = Some (replicate 4294967295 0), size_l = 4294967295,
                 alloc_size = 4294967295, pos = 2147483648\<rparr>"

definition wide_line :: "int audio_delay_line" where
  "wide_line = \<lparr>data = Some (replicate 4294967295 0), size_l = 4294967295,
                  alloc_size = 4294967295, pos = 4294967294\<rparr>"

section \<open>Words and blocks\<close>

lemma sint_frames:
  assumes "- (2 ^ 31) \<le> k" "k < 2 ^ 31"
  shows "sint (word_of_int k :: 32 word) = k"
proof -
  have "sint (word_of_int k :: 32 word) = signed_take_bit 31 k"
    by (simp add: sint_sbintrunc')
  also have "\<dots> = k"
    using assms by (intro signed_take_bit_int_eq_self) simp_all
  finally show ?thesis .
qed

lemma sint_small: "unat (w :: 32 word) < 2 ^ 31 \<Longrightarrow> sint w = int (unat w)"
proof -
  assume a: "unat w < 2 ^ 31"
  have "w < (2147483648 :: 32 word)" using a by (simp add: word_less_nat_alt)
  then have 1: "uint w < 2 ^ 31" by (simp add: word_less_def)
  have 2: "- (2 ^ 31) \<le> uint w"
    by (rule order_trans [of _ 0]) simp_all
  have "sint (word_of_int (uint w) :: 32 word) = uint w"
    by (rule sint_frames [OF 2 1])
  then show ?thesis by simp
qed

lemma read_cells_inside:
  "off + n \<le> length m \<Longrightarrow> read_cells m off n = Some (take n (drop off m))"
  by (simp add: read_cells_def)

lemma write_cells_same:
  "off + n \<le> length m \<Longrightarrow> write_cells m off (take n (drop off m)) = Some m"
  apply (simp add: write_cells_def min_absorb2)
  by (metis append_take_drop_id drop_drop add.commute)

lemma peek_NULL: "n \<noteq> 0 \<Longrightarrow> peek None off n = None"
  by (simp add: peek_def)

lemma wf_line_le: "wf_line l \<Longrightarrow> size_l l \<le> alloc_size l"
  by (simp add: wf_line_def)

lemma wf_line_pos: "wf_line l \<Longrightarrow> size_l l \<noteq> 0 \<Longrightarrow> pos l < size_l l"
  by (simp add: wf_line_def)

section \<open>A failed allocation\<close>

lemma write_through_NULL:
  assumes "xs \<noteq> []"
  shows "do { moved \<leftarrow> peek None a n; d1 \<leftarrow> poke None c moved; d2 \<leftarrow> poke d1 c' xs; f d2 } = None"
proof (cases "n = 0")
  case True
  then show ?thesis using assms by (simp add: peek_def poke_def)
next
  case False
  then show ?thesis by (simp add: peek_def)
qed

lemma resize_through_NULL:
  assumes "data l = None" "size_l l < sz" "sz \<le> alloc_size l"
  shows "audio_delay_line_resize l sz heap = None"
proof -
  have n: "replicate (unat (sz - size_l l)) (0::'a) \<noteq> []"
    using assms(2) by (simp add: unat_eq_zero)
  have no: "\<not> alloc_size l < sz" using assms(3) by simp
  show ?thesis
    unfolding audio_delay_line_resize_def Let_def
    by (simp only: no if_False assms(1) assms(2) if_True simp_thms write_through_NULL [OF n])
qed

lemma process_through_NULL:
  assumes "data l = None" "size_l l \<noteq> 0" "pos l < size_l l" "period \<noteq> 0"
  shows "audio_delay_line_process l inp out period = None"
proof -
  have "size_l l - pos l \<noteq> 0" using assms(3) by simp
  then show ?thesis
    using assms
    by (auto simp: audio_delay_line_process_def Let_def peek_def unat_eq_zero
        split: Option.bind_split if_splits)
qed

text \<open>
  Claim C10.  When \<^verbatim>\<open>audio_delay_line_resize\<close> has to grow the block and \<^verbatim>\<open>realloc\<close>
  fails, the call returns 1 and leaves the line changed: \<open>alloc_size\<close> is already the
  requested size and \<open>data\<close> is \<^verbatim>\<open>NULL\<close>, so the buffered samples are out of reach,
  while \<open>size\<close> and \<open>pos\<close> are the old ones.  Later operations meet this state: the
  same resize asked again does not allocate and writes through the \<^verbatim>\<open>NULL\<close> pointer,
  and so does a process call on a line with a delay.
\<close>

theorem resize_alloc_failure_not_atomic:
  assumes "wf_line l" and "alloc_size l < sz"
  shows "\<exists>l'. audio_delay_line_resize l sz None = Some (1, l') \<and> l' \<noteq> l
           \<and> alloc_size l' = sz \<and> data l' = None
           \<and> size_l l' = size_l l \<and> pos l' = pos l
           \<and> audio_delay_line_resize l' sz heap = None
           \<and> (size_l l \<noteq> 0 \<and> period \<noteq> 0 \<longrightarrow> audio_delay_line_process l' inp out period = None)"
proof -
  let ?l' = "l\<lparr>alloc_size := sz, data := None\<rparr>"
  have r: "audio_delay_line_resize l sz None = Some (1, ?l')"
    using assms(2) by (simp add: audio_delay_line_resize_def realloc_def)
  have ne: "?l' \<noteq> l"
  proof
    assume "?l' = l"
    then have "alloc_size ?l' = alloc_size l" by simp
    with assms(2) show False by simp
  qed
  have lt: "size_l ?l' < sz"
    using wf_line_le [OF assms(1)] assms(2) by simp
  have again: "audio_delay_line_resize ?l' sz heap = None"
    by (rule resize_through_NULL) (use lt in simp_all)
  have proc: "size_l l \<noteq> 0 \<and> period \<noteq> 0 \<longrightarrow> audio_delay_line_process ?l' inp out period = None"
  proof
    assume a: "size_l l \<noteq> 0 \<and> period \<noteq> 0"
    show "audio_delay_line_process ?l' inp out period = None"
      by (rule process_through_NULL) (use a wf_line_pos [OF assms(1)] in simp_all)
  qed
  show ?thesis
    using r ne again proc by (intro exI [of _ ?l']) simp
qed

theorem resize_alloc_failure_not_atomic_witness:
  "wf_line \<lparr>data = Some [1, 2 :: int], size_l = 2, alloc_size = 2, pos = 0\<rparr>
   \<and> alloc_size \<lparr>data = Some [1, 2 :: int], size_l = 2, alloc_size = 2, pos = 0\<rparr> < 3
   \<and> (\<exists>l'. audio_delay_line_resize \<lparr>data = Some [1, 2 :: int], size_l = 2, alloc_size = 2, pos = 0\<rparr> 3 None
              = Some (1, l')
         \<and> l' \<noteq> \<lparr>data = Some [1, 2], size_l = 2, alloc_size = 2, pos = 0\<rparr>
         \<and> alloc_size l' = 3 \<and> data l' = None \<and> size_l l' = 2 \<and> pos l' = 0
         \<and> audio_delay_line_resize l' 3 (Some (\<lambda>i. 0)) = None
         \<and> audio_delay_line_process l' [5] [0] 1 = None)"
proof -
  let ?l = "\<lparr>data = Some [1, 2 :: int], size_l = 2, alloc_size = 2, pos = 0\<rparr>"
  have w: "wf_line ?l" by (simp add: wf_line_def cells_def)
  have a: "alloc_size ?l < 3" by simp
  show ?thesis
    using w a resize_alloc_failure_not_atomic [OF w a, of "Some (\<lambda>i. 0)" 1 "[5]" "[0]"]
    by simp
qed


section \<open>Processing blocks\<close>

lemma split2:
  assumes "a + b = length xs"
  shows "\<exists>X Y. xs = X @ Y \<and> length X = a \<and> length Y = b"
proof (intro exI conjI)
  show "xs = take a xs @ drop a xs" by simp
  show "length (take a xs) = a" using assms by simp
  show "length (drop a xs) = b" using assms by simp
qed

lemma split3:
  assumes "a + b + c = length xs"
  shows "\<exists>X Y Z. xs = X @ Y @ Z \<and> length X = a \<and> length Y = b \<and> length Z = c"
proof -
  obtain X R where 1: "xs = X @ R" "length X = a" "length R = b + c"
    using split2 [of a "b + c" xs] assms by auto
  obtain Y Z where 2: "R = Y @ Z" "length Y = b" "length Z = c"
    using split2 [of b c R] 1(3) by auto
  show ?thesis using 1 2 by blast
qed

lemma split4:
  assumes "a + b + c + d = length xs"
  shows "\<exists>W X Y Z. xs = W @ X @ Y @ Z \<and> length W = a \<and> length X = b \<and> length Y = c
           \<and> length Z = d"
proof -
  obtain W R where 1: "xs = W @ R" "length W = a" "length R = b + c + d"
    using split2 [of a "b + c + d" xs] assms by auto
  obtain X Y Z where 2: "R = X @ Y @ Z" "length X = b" "length Y = c" "length Z = d"
    using split3 [of b c d R] 1(3) by auto
  show ?thesis using 1 2 by blast
qed

lemma write_cells_inside:
  "off + length xs \<le> length m
   \<Longrightarrow> write_cells m off xs = Some (take off m @ xs @ drop (off + length xs) m)"
  by (simp add: write_cells_def)

lemma process_words:
  fixes sz ps period :: "32 word"
  assumes "ps < sz" "unat sz \<le> 2 ^ 31"
  defines "tw \<equiv> (if sz < period then sz else period)"
  defines "c1w \<equiv> (if tw < sz - ps then tw else sz - ps)"
  defines "t \<equiv> min (unat period) (unat sz)"
  defines "c1 \<equiv> min t (unat sz - unat ps)"
  shows "unat tw = t" "unat c1w = c1" "unat (tw - c1w) = t - c1"
    "unat (period - tw) = unat period - t"
    "unat (period - (tw - c1w)) = unat period - (t - c1)"
    "unat ((ps + tw) mod sz) = (unat ps + t) mod unat sz"
proof -
  show t: "unat tw = t"
    by (simp add: tw_def t_def word_less_nat_alt min_def)
  have sub: "unat (sz - ps) = unat sz - unat ps"
    using assms(1) by (simp add: unat_sub word_le_nat_alt word_less_nat_alt)
  show c1: "unat c1w = c1"
    using t sub by (simp add: c1w_def c1_def word_less_nat_alt min_def)
  have le1: "c1w \<le> tw" using t c1 by (simp add: word_le_nat_alt c1_def)
  show c2: "unat (tw - c1w) = t - c1"
    using le1 t c1 by (simp add: unat_sub)
  have le2: "tw \<le> period" using t by (simp add: word_le_nat_alt t_def)
  show "unat (period - tw) = unat period - t"
    using le2 t by (simp add: unat_sub)
  have le3: "tw - c1w \<le> period" using c2 t by (simp add: word_le_nat_alt t_def)
  show "unat (period - (tw - c1w)) = unat period - (t - c1)"
    using le3 c2 by (simp add: unat_sub)
  have "unat ps < unat sz" using assms(1) by (simp add: word_less_nat_alt)
  moreover have "t \<le> unat sz" by (simp add: t_def)
  ultimately have "unat ps + t < 2 ^ 32" using assms(2) by simp
  then have "unat ps + unat tw < 2 ^ LENGTH(32)" using t by simp
  then have "unat (ps + tw) = unat ps + unat tw"
    by (simp only: unat_add_lem)
  then have "unat (ps + tw) = unat ps + t" using t by simp
  then show "unat ((ps + tw) mod sz) = (unat ps + t) mod unat sz"
    by (simp add: unat_mod)
qed

lemma swap_history:
  fixes m inp :: "'a list"
  assumes "p < s" "s \<le> length m"
  defines "P \<equiv> length inp"
  defines "t \<equiv> min P s"
  defines "c1 \<equiv> min t (s - p)"
  defines "c2 \<equiv> t - c1"
  defines "D1 \<equiv> take p m @ take c1 (drop (P - t) inp) @ drop (p + c1) m"
  defines "D2 \<equiv> take c2 (drop (P - c2) inp) @ drop c2 D1"
  defines "q \<equiv> (p + t) mod s"
  shows "take c1 (drop p m) @ take c2 D1 @ take (P - t) inp
           @ drop q (take s D2) @ take q (take s D2)
         = (drop p (take s m) @ take p (take s m)) @ inp"
proof -
  consider (long) "s \<le> P" | (short) "P < s" "P < s - p" | (exact) "P < s" "P = s - p"
    | (wrap) "P < s" "s - p < P"
    by linarith
  then show ?thesis
  proof cases
    case long
    have v: "t = s" "c1 = s - p" "c2 = p" "q = p"
      using long assms(1) by (simp_all add: t_def c1_def c2_def q_def)
    obtain X Y Z where m: "m = X @ Y @ Z" and X: "length X = p" and Y: "length Y = s - p"
      using split3 [of p "s - p" "length m - s" m] assms(1,2) by auto
    obtain F G H where i: "inp = F @ G @ H" and F: "length F = P - s" and G: "length G = s - p"
        and H: "length H = p"
      using split3 [of "P - s" "s - p" p inp] assms(1) long by (auto simp: P_def)
    show ?thesis
      using assms(1) X Y F G H
      by (simp add: v D1_def D2_def m i P_def)
  next
    case short
    have v: "t = P" "c1 = P" "c2 = 0" "q = p + P"
      using short assms(1) by (simp_all add: t_def c1_def c2_def q_def)
    obtain X Y1 Y2 Z where m: "m = X @ Y1 @ Y2 @ Z" and X: "length X = p"
        and Y1: "length Y1 = P" and Y2: "length Y2 = s - p - P"
      using split4 [of p P "s - p - P" "length m - s" m] assms(1,2) short by auto
    show ?thesis
      using assms(1) short X Y1 Y2
      by (simp add: v D1_def D2_def m) (simp add: P_def)
  next
    case exact
    have v: "t = P" "c1 = P" "c2 = 0" "q = 0"
      using exact assms(1) by (simp_all add: t_def c1_def c2_def q_def)
    obtain X Y Z where m: "m = X @ Y @ Z" and X: "length X = p" and Y: "length Y = P"
      using split3 [of p P "length m - s" m] assms(1,2) exact by auto
    have s: "s = p + P" using exact assms(1) by simp
    show ?thesis
      using X Y
      by (simp add: v D1_def D2_def m s) (simp add: P_def)
  next
    case wrap
    define k where "k = P - (s - p)"
    have k: "k < p" "P = (s - p) + k" using wrap assms(1) by (simp_all add: k_def)
    have v1: "t = P" "c1 = s - p" "c2 = k"
      using wrap assms(1) by (simp_all add: t_def c1_def c2_def k_def)
    have "p + P = s + k" using k assms(1) by simp
    then have v2: "q = k" using k(1) assms(1) by (simp add: q_def v1)
    note v = v1 v2
    obtain X1 X2 Y Z where m: "m = X1 @ X2 @ Y @ Z" and X1: "length X1 = k"
        and X2: "length X2 = p - k" and Y: "length Y = s - p"
      using split4 [of k "p - k" "s - p" "length m - s" m] assms(1,2) k by auto
    obtain I1 I2 where i: "inp = I1 @ I2" and I1: "length I1 = s - p" and I2: "length I2 = k"
      using split2 [of "s - p" k inp] k(2) by (auto simp: P_def)
    show ?thesis
      using assms(1) k(1) X1 X2 Y I1 I2
      by (simp add: v D1_def D2_def m i P_def)
  qed
qed

lemma chunk_arith:
  fixes P s p :: nat
  assumes "p < s"
  shows "min (min P s) (s - p) \<le> min P s"
    "min (min P s) (s - p) \<le> s - p"
    "min P s - min (min P s) (s - p) \<le> p"
    "min (min P s) (s - p) + (min P s - min (min P s) (s - p)) = min P s"
    "p + min (min P s) (s - p) \<le> s"
    "P - min P s + min (min P s) (s - p) \<le> P"
    "P - (min P s - min (min P s) (s - p)) + (min P s - min (min P s) (s - p)) \<le> P"
  using assms by (auto simp: min_def)

lemma process_body:
  fixes m inp out :: "'a list" and P s p :: nat and tw c1w period pw :: "32 word"
    and l :: "'a audio_delay_line"
  assumes d: "data l = Some m" and p_s: "p < s" and s_m: "s \<le> length m"
    and li: "length inp = P" and lo: "length out = P"
  defines "t \<equiv> min P s"
  defines "c1 \<equiv> min t (s - p)"
  defines "c2 \<equiv> t - c1"
  assumes w: "unat (pos l) = p" "unat tw = t" "unat c1w = c1" "unat (tw - c1w) = c2"
    "unat (period - tw) = P - t" "unat (period - (tw - c1w)) = P - c2"
  defines "D1 \<equiv> take p m @ take c1 (drop (P - t) inp) @ drop (p + c1) m"
  defines "D2 \<equiv> take c2 (drop (P - c2) inp) @ drop c2 D1"
  shows "do {
       (line1, out1) \<leftarrow>
          do {
            a \<leftarrow> peek (data l) (unat (pos l)) (unat c1w);
            o1 \<leftarrow> write_cells out 0 a;
            b \<leftarrow> read_cells inp (unat (period - tw)) (unat c1w);
            d1 \<leftarrow> poke (data l) (unat (pos l)) b;
            c \<leftarrow> peek d1 0 (unat (tw - c1w));
            o2 \<leftarrow> write_cells o1 (unat c1w) c;
            e \<leftarrow> read_cells inp (unat (period - (tw - c1w))) (unat (tw - c1w));
            d2 \<leftarrow> poke d1 0 e;
            Some (l\<lparr>data := d2, pos := pw\<rparr>, o2)
          };
       f \<leftarrow> read_cells inp 0 (unat (period - tw));
       o3 \<leftarrow> write_cells out1 (unat tw) f;
       Some (line1, o3)
     } = Some (l\<lparr>data := Some D2, pos := pw\<rparr>,
               take c1 (drop p m) @ take c2 D1 @ take (P - t) inp)
     \<and> length D2 = length m"
proof -
  note ar = chunk_arith [OF p_s, of P, folded t_def, folded c1_def, folded c2_def]
  have tP: "t \<le> P" "t \<le> s" by (simp_all add: t_def)
  define A B C E F where "A = take c1 (drop p m)"
    and "B = take c1 (drop (P - t) inp)"
    and "C = take c2 D1"
    and "E = take c2 (drop (P - c2) inp)"
    and "F = take (P - t) inp"
  have lA: "length A = c1" using ar s_m by (simp add: A_def)
  have lB: "length B = c1" using ar li by (simp add: B_def)
  have lD1: "length D1 = length m" using ar s_m lB by (simp add: D1_def B_def [symmetric])
  have lC: "length C = c2" using ar s_m lD1 p_s by (simp add: C_def)
  have lE: "length E = c2" using ar li by (simp add: E_def)
  have lD2: "length D2 = length m"
    using ar s_m lD1 lE p_s by (simp add: D2_def E_def [symmetric])
  have lF: "length F = P - t" using li by (simp add: F_def)
  have a: "peek (data l) p c1 = Some A"
    using ar s_m by (simp add: d peek_def read_cells_inside A_def)
  have o1: "write_cells out 0 A = Some (A @ drop c1 out)"
    using write_cells_inside [of 0 A out] lA ar tP lo by simp
  have b: "read_cells inp (P - t) c1 = Some B"
    using ar li by (simp add: read_cells_inside B_def)
  have d1: "poke (data l) p B = Some (Some D1)"
    using write_cells_inside [of p B m] lB ar s_m by (simp add: d poke_def D1_def B_def)
  have c: "peek (Some D1) 0 c2 = Some C"
    using ar s_m lD1 p_s by (simp add: peek_def read_cells_inside C_def)
  have o2: "write_cells (A @ drop c1 out) c1 C = Some (A @ C @ drop t out)"
    using write_cells_inside [of c1 C "A @ drop c1 out"] lA lC ar tP lo
    by (simp add: add.commute)
  have e: "read_cells inp (P - c2) c2 = Some E"
    using ar li by (simp add: read_cells_inside E_def)
  have d2: "poke (Some D1) 0 E = Some (Some D2)"
    using write_cells_inside [of 0 E D1] lE lD1 ar s_m p_s by (simp add: poke_def D2_def E_def)
  have f: "read_cells inp 0 (P - t) = Some F"
    using li by (simp add: read_cells_inside F_def)
  have o3: "write_cells (A @ C @ drop t out) t F = Some (A @ C @ F)"
    using write_cells_inside [of t F "A @ C @ drop t out"] lA lC lF ar tP lo by simp
  show ?thesis
    unfolding A_def [symmetric] C_def [symmetric] F_def [symmetric]
    by (simp only: w a o1 b d1 c o2 e d2 f o3 lD2
        Option.bind.simps prod.case Option.bind_lunit simp_thms)
qed

lemma process_empty_line:
  assumes "size_l l = 0" "length inp = unat period" "length out = unat period"
  shows "audio_delay_line_process l inp out period = Some (l, inp)"
proof -
  have t: "(if size_l l < period then size_l l else period) = 0"
    using assms(1) by (simp add: word_less_nat_alt unat_gt_0 [symmetric] unat_eq_zero)
  have r: "read_cells inp 0 (unat period) = Some (take (unat period) (drop 0 inp))"
    by (rule read_cells_inside) (simp add: assms(2))
  have w: "write_cells out 0 inp = Some (take 0 out @ inp @ drop (0 + length inp) out)"
    by (rule write_cells_inside) (simp add: assms)
  show ?thesis
    unfolding audio_delay_line_process_def Let_def t
    using assms r w by simp
qed

lemma process_unfold:
  fixes l :: "'a audio_delay_line" and period tw c1w :: jack_nframes_t
  assumes nz: "size_l l \<noteq> 0"
    and tw: "tw = (if size_l l < period then size_l l else period)"
    and c1w: "c1w = (if tw < size_l l - pos l then tw else size_l l - pos l)"
    and pw: "pw = (pos l + tw) mod size_l l"
  shows "audio_delay_line_process l inp out period =
     do {
       (line1, out1) \<leftarrow>
          do {
            a \<leftarrow> peek (data l) (unat (pos l)) (unat c1w);
            o1 \<leftarrow> write_cells out 0 a;
            b \<leftarrow> read_cells inp (unat (period - tw)) (unat c1w);
            d1 \<leftarrow> poke (data l) (unat (pos l)) b;
            c \<leftarrow> peek d1 0 (unat (tw - c1w));
            o2 \<leftarrow> write_cells o1 (unat c1w) c;
            e \<leftarrow> read_cells inp (unat (period - (tw - c1w))) (unat (tw - c1w));
            d2 \<leftarrow> poke d1 0 e;
            Some (l\<lparr>data := d2, pos := pw\<rparr>, o2)
          };
       f \<leftarrow> read_cells inp 0 (unat (period - tw));
       o3 \<leftarrow> write_cells out1 (unat tw) f;
       Some (line1, o3)
     }"
  unfolding audio_delay_line_process_def Let_def pw c1w tw
  by (simp only: nz not_False_eq_True if_True)

lemma process_delay_line:
  fixes l :: "'a audio_delay_line"
  assumes wf: "wf_line l" and nz: "size_l l \<noteq> 0" and bound: "unat (size_l l) \<le> 2 ^ 31"
    and li: "length inp = unat period" and lo: "length out = unat period"
  shows "\<exists>l' out'. audio_delay_line_process l inp out period = Some (l', out')
           \<and> wf_line l' \<and> size_l l' = size_l l \<and> alloc_size l' = alloc_size l
           \<and> out' @ history l' = history l @ inp"
proof -
  define s p P where "s = unat (size_l l)" and "p = unat (pos l)" and "P = length inp"
  define tw where "tw = (if size_l l < period then size_l l else period)"
  define c1w where "c1w = (if tw < size_l l - pos l then tw else size_l l - pos l)"
  define pw where "pw = (pos l + tw) mod size_l l"
  have ps: "pos l < size_l l" using wf nz by (rule wf_line_pos)
  have p_s: "p < s" using ps by (simp add: p_def s_def word_less_nat_alt)
  obtain m where d: "data l = Some m"
    using wf nz by (cases "data l") (auto simp: wf_line_def)
  have m: "cells l = m" using d by (simp add: cells_def)
  define D1 where "D1 = take p m @ take (min (min P s) (s - p)) (drop (P - min P s) inp)
      @ drop (p + min (min P s) (s - p)) m"
  define D2 where "D2 = take (min P s - min (min P s) (s - p))
      (drop (P - (min P s - min (min P s) (s - p))) inp)
      @ drop (min P s - min (min P s) (s - p)) D1"
  define q where "q = (p + min P s) mod s"
  have s_m: "s \<le> length m"
    using wf m by (simp add: wf_line_def s_def word_le_nat_alt)
  have Pp: "unat period = P" using li by (simp add: P_def)
  have w: "unat (pos l) = p" "unat tw = min P s" "unat c1w = min (min P s) (s - p)"
    "unat (tw - c1w) = min P s - min (min P s) (s - p)"
    "unat (period - tw) = P - min P s"
    "unat (period - (tw - c1w)) = P - (min P s - min (min P s) (s - p))"
    "unat pw = q"
    using process_words [OF ps bound, of period]
    by (simp_all only: tw_def c1w_def pw_def s_def p_def q_def Pp [symmetric])
  have lo': "length out = P" using lo Pp by simp
  let ?l' = "l\<lparr>data := Some D2, pos := pw\<rparr>"
  let ?o = "take (min (min P s) (s - p)) (drop p m)
      @ take (min P s - min (min P s) (s - p)) D1 @ take (P - min P s) inp"
  have body: "audio_delay_line_process l inp out period = Some (?l', ?o)
      \<and> length D2 = length m"
    unfolding process_unfold [OF nz tw_def c1w_def pw_def] D2_def D1_def
    by (rule process_body [OF d p_s s_m P_def [symmetric] lo' w(1-6)])
  have q_s: "q < s" using p_s by (simp add: q_def)
  have wf': "wf_line ?l'"
    using wf nz body m q_s w(7)
    by (simp add: wf_line_def cells_def word_less_nat_alt s_def)
  have h: "history l = drop p (take s m) @ take p (take s m)"
    by (simp add: history_def m s_def p_def)
  have h': "history ?l' = drop q (take s D2) @ take q (take s D2)"
    using w(7) by (simp add: history_def cells_def s_def)
  have "?o @ drop q (take s D2) @ take q (take s D2)
      = (drop p (take s m) @ take p (take s m)) @ inp"
    unfolding D2_def D1_def P_def q_def
    using swap_history [OF p_s s_m, of inp] by (simp only: append_assoc)
  then have "?o @ history ?l' = history l @ inp"
    by (simp only: h h')
  then show ?thesis using body wf' by (intro exI [of _ ?l'] exI [of _ ?o]) simp
qed

lemma length_history: "wf_line l \<Longrightarrow> length (history l) = unat (size_l l)"
  by (auto simp: wf_line_def history_def Let_def word_le_nat_alt word_less_nat_alt
      split: if_splits)

lemma process_step:
  fixes l :: "'a audio_delay_line"
  assumes wf: "wf_line l" and bound: "unat (size_l l) \<le> 2 ^ 31"
    and li: "length inp = unat period" and lo: "length out = unat period"
  shows "\<exists>l'. audio_delay_line_process l inp out period
             = Some (l', take (length inp) (history l @ inp))
           \<and> wf_line l' \<and> size_l l' = size_l l \<and> alloc_size l' = alloc_size l
           \<and> history l' = drop (length inp) (history l @ inp)"
proof (cases "size_l l = 0")
  case True
  have "history l = []" using True by (simp add: history_def)
  then show ?thesis
    using process_empty_line [OF True li lo] wf by simp
next
  case False
  from process_delay_line [OF wf False bound li lo]
  obtain l' out' where r: "audio_delay_line_process l inp out period = Some (l', out')"
    and wf': "wf_line l'" and sz: "size_l l' = size_l l" and al: "alloc_size l' = alloc_size l"
    and eq: "out' @ history l' = history l @ inp"
    by blast
  have "length (out' @ history l') = length (history l @ inp)" using eq by simp
  then have len: "length out' = length inp"
    using length_history [OF wf] length_history [OF wf'] sz by simp
  have "out' = take (length out') (history l @ inp)"
    and "history l' = drop (length out') (history l @ inp)"
    using eq by (simp_all add: append_eq_conv_conj)
  then show ?thesis using r wf' sz al len by simp
qed

lemma delay_concat:
  assumes "H @ I = O1 @ H1" "length O1 = length I"
  shows "O1 @ take (length R) (H1 @ R) = take (length I + length R) (H @ I @ R)"
    and "drop (length R) (H1 @ R) = drop (length I + length R) (H @ I @ R)"
proof -
  have w: "H @ I @ R = O1 @ H1 @ R" using assms(1) by (metis append.assoc)
  show "O1 @ take (length R) (H1 @ R) = take (length I + length R) (H @ I @ R)"
    unfolding w using assms(2) by simp
  show "drop (length R) (H1 @ R) = drop (length I + length R) (H @ I @ R)"
    unfolding w using assms(2) by simp
qed

lemma replicate_numeral: "replicate (numeral k) x = x # replicate (pred_numeral k) x"
  by (simp add: numeral_eq_Suc)

text \<open>
  Claim C1, for lines of at most \<open>2^31\<close> samples.  A well-formed line is fed any sequence
  of blocks, of any lengths below \<open>2^32\<close> (zero, shorter than the delay, equal to it,
  longer, with or without wrap-around of the read position).  Every call returns, and
  everything emitted is the buffered history followed by the input, cut to the number
  of samples fed: each sample comes out exactly \<open>size\<close> samples after it went in, and
  the first \<open>size\<close> samples emitted are the history (silence for a line fresh from
  \<^verbatim>\<open>audio_delay_line_resize\<close>).  The line keeps its size and ends holding the last
  \<open>size\<close> samples.
\<close>

theorem process_blocks_exact_delay:
  fixes l :: "'a audio_delay_line"
  assumes "wf_line l" and "unat (size_l l) \<le> 2 ^ 31"
    and "\<forall>b \<in> set blocks. length (fst b) < 2 ^ 32 \<and> length (snd b) = length (fst b)"
  shows "\<exists>l'. process_blocks l blocks
             = Some (l', take (length (concat (map fst blocks)))
                           (history l @ concat (map fst blocks)))
           \<and> wf_line l' \<and> size_l l' = size_l l
           \<and> history l' = drop (length (concat (map fst blocks)))
                             (history l @ concat (map fst blocks))"
  using assms
proof (induction blocks arbitrary: l)
  case Nil
  then show ?case by (simp add: length_history)
next
  case (Cons b bs)
  let ?inp = "fst b" and ?rest = "concat (map fst bs)"
  have lb: "length ?inp < 2 ^ 32" "length (snd b) = length ?inp"
    using Cons.prems(3) by simp_all
  have per: "unat (of_nat (length ?inp) :: jack_nframes_t) = length ?inp"
    using lb(1) by (simp add: unat_of_nat)
  from process_step [OF Cons.prems(1,2), of ?inp "of_nat (length ?inp)" "snd b"] per lb
  obtain l1 where s1: "audio_delay_line_process l ?inp (snd b) (of_nat (length ?inp))
        = Some (l1, take (length ?inp) (history l @ ?inp))"
    and wf1: "wf_line l1" and sz1: "size_l l1 = size_l l"
    and h1: "history l1 = drop (length ?inp) (history l @ ?inp)"
    by auto
  have "\<forall>b \<in> set bs. length (fst b) < 2 ^ 32 \<and> length (snd b) = length (fst b)"
    using Cons.prems(3) by simp
  from Cons.IH [OF wf1 _ this] sz1 Cons.prems(2)
  obtain l2 where s2: "process_blocks l1 bs
        = Some (l2, take (length ?rest) (history l1 @ ?rest))"
    and wf2: "wf_line l2" and sz2: "size_l l2 = size_l l1"
    and h2: "history l2 = drop (length ?rest) (history l1 @ ?rest)"
    by auto
  have split: "history l @ ?inp = take (length ?inp) (history l @ ?inp) @ history l1"
    by (simp only: h1 append_take_drop_id)
  have len: "length (take (length ?inp) (history l @ ?inp)) = length ?inp" by simp
  note dc = delay_concat [OF split len, of ?rest]
  show ?case
    using s1 s2 wf2 sz1 sz2 h2 dc by simp
qed

text \<open>
  The example of the specification: a fresh line resized to 3 holds three samples of
  silence; the block 1, 2, 3, 4, 5 comes out as 0, 0, 0, 1, 2 and leaves 3, 4, 5 in the line.
\<close>

theorem process_blocks_exact_delay_witness:
  "audio_delay_line_resize (audio_delay_line_new :: int audio_delay_line) 3 (Some (\<lambda>i. 7))
     = Some (0, \<lparr>data = Some [0, 0, 0], size_l = 3, alloc_size = 3, pos = 0\<rparr>)
   \<and> wf_line \<lparr>data = Some [0, 0, 0 :: int], size_l = 3, alloc_size = 3, pos = 0\<rparr>
   \<and> unat (size_l \<lparr>data = Some [0, 0, 0 :: int], size_l = 3, alloc_size = 3, pos = 0\<rparr>) \<le> 2 ^ 31
   \<and> length [1, 2, 3, 4, 5 :: int] < 2 ^ 32
   \<and> length [9, 9, 9, 9, 9 :: int] = length [1, 2, 3, 4, 5 :: int]
   \<and> (\<exists>l'. process_blocks \<lparr>data = Some [0, 0, 0 :: int], size_l = 3, alloc_size = 3, pos = 0\<rparr>
                [([1, 2, 3, 4, 5], [9, 9, 9, 9, 9])]
              = Some (l', [0, 0, 0, 1, 2])
            \<and> history l' = [3, 4, 5])"
proof -
  let ?l = "\<lparr>data = Some [0, 0, 0 :: int], size_l = 3, alloc_size = 3, pos = 0\<rparr>"
  let ?bs = "[([1, 2, 3, 4, 5 :: int], [9, 9, 9, 9, 9 :: int])]"
  have r: "audio_delay_line_resize (audio_delay_line_new :: int audio_delay_line) 3 (Some (\<lambda>i. 7))
      = Some (0, ?l)"
    by (simp add: audio_delay_line_resize_def audio_delay_line_new_def realloc_def Let_def
        peek_def poke_def read_cells_def write_cells_def replicate_numeral)
  have w: "wf_line ?l" by (simp add: wf_line_def cells_def)
  have b: "unat (size_l ?l) \<le> 2 ^ 31" by simp
  have h: "\<forall>b \<in> set ?bs. length (fst b) < 2 ^ 32 \<and> length (snd b) = length (fst b)" by simp
  have hist: "history ?l = [0, 0, 0]" by (simp add: history_def cells_def)
  have e1: "take (length (concat (map fst ?bs))) (history ?l @ concat (map fst ?bs))
      = [0, 0, 0, 1, 2]"
    by (simp add: hist)
  have e2: "drop (length (concat (map fst ?bs))) (history ?l @ concat (map fst ?bs))
      = [3, 4, 5]"
    by (simp add: hist)
  from process_blocks_exact_delay [OF w b h]
  obtain l' where p: "process_blocks ?l ?bs
        = Some (l', take (length (concat (map fst ?bs))) (history ?l @ concat (map fst ?bs)))"
    and q: "history l' = drop (length (concat (map fst ?bs))) (history ?l @ concat (map fst ?bs))"
    by blast
  have "process_blocks ?l ?bs = Some (l', [0, 0, 0, 1, 2])" using p unfolding e1 .
  moreover have "history l' = [3, 4, 5]" using q unfolding e2 .
  ultimately have ex: "\<exists>l'. process_blocks ?l ?bs = Some (l', [0, 0, 0, 1, 2])
      \<and> history l' = [3, 4, 5]"
    by blast
  show ?thesis
    by (intro conjI r w b ex) simp_all
qed

text \<open>
  Above \<open>2^31\<close> samples the sum \<^verbatim>\<open>line->pos + to_swap\<close> can wrap around \<open>2^32\<close> before the
  remainder is taken.  On \<open>wide_line\<close> the block 1, 2 moves the read position to 0
  instead of 1, and the next block emits the sample 2 that was fed just before it, not
  the silence that is due.
\<close>

lemma wf_wide_line: "wf_line wide_line"
  by (simp add: wf_line_def wide_line_def cells_def)

lemma wide_line_first_block:
  "audio_delay_line_process wide_line [1, 2] [0, 0] 2
     = Some (\<lparr>data = Some (2 # replicate 4294967293 0 @ [1]), size_l = 4294967295,
               alloc_size = 4294967295, pos = 0\<rparr>, [0, 0])"
  by (simp add: audio_delay_line_process_def wide_line_def Let_def peek_def poke_def
      read_cells_def write_cells_def)

lemma wide_line_second_block:
  "audio_delay_line_process
     \<lparr>data = Some (2 # replicate 4294967293 0 @ [1 :: int]), size_l = 4294967295,
      alloc_size = 4294967295, pos = 0\<rparr> [3] [0] 1
   = Some (\<lparr>data = Some (3 # replicate 4294967293 0 @ [1]), size_l = 4294967295,
             alloc_size = 4294967295, pos = 1\<rparr>, [2])"
  by (simp add: audio_delay_line_process_def Let_def peek_def poke_def
      read_cells_def write_cells_def)

lemma wide_line_history: "take 3 (history wide_line @ [1, 2, 3]) = [0, 0, 0]"
  by (simp add: history_def wide_line_def cells_def replicate_numeral [of "num.Bit1 num.One"]
      replicate_numeral [of "num.Bit0 num.One"])

theorem process_overflow_counterexample:
  "wf_line wide_line
   \<and> map_option snd (process_blocks wide_line [([1, 2], [0, 0]), ([3], [0])]) = Some [0, 0, 2]
   \<and> take 3 (history wide_line @ [1, 2, 3]) = [0, 0, 0]"
proof -
  have "map_option snd (process_blocks wide_line [([1, 2], [0, 0]), ([3], [0])]) = Some [0, 0, 2]"
    by (simp add: wide_line_first_block wide_line_second_block)
  then show ?thesis using wf_wide_line wide_line_history by simp
qed


section \<open>Resizing to the current size\<close>

text \<open>
  Claim C6, for lines whose read position is below \<open>2^31\<close>.  Resizing a well-formed
  line to its current size returns 0 and leaves the line as it was: no reallocation
  (\<open>alloc_size\<close> and the block are the same), the same read position, the same content.
  The allocator is not consulted, whatever its answer would be.
\<close>

lemma resize_same_size:
  assumes "wf_line l" "unat (pos l) < 2 ^ 31"
  shows "audio_delay_line_resize l (size_l l) heap = Some (0, l)"
proof -
  let ?p = "unat (pos l)" and ?s = "unat (size_l l)"
  from assms(1) have le: "size_l l \<le> alloc_size l" and
       len: "length (cells l) = unat (alloc_size l)" and
       nul: "data l = None \<longrightarrow> alloc_size l = 0" and
       ps: "if size_l l = 0 then pos l = 0 else pos l < size_l l"
    by (simp_all add: wf_line_def)
  have p_le: "?p \<le> ?s" using ps by (auto simp: word_less_nat_alt split: if_splits)
  have s_le: "?s \<le> length (cells l)" using le len by (simp add: word_le_nat_alt)
  have sp: "sint (pos l) = int ?p" using assms(2) by (rule sint_small)
  have sub: "unat (size_l l - pos l) = ?s - ?p"
    using p_le by (simp add: unat_sub word_le_nat_alt)
  show ?thesis
  proof (cases "data l")
    case None
    then have "size_l l = 0" "pos l = 0" using nul le ps by (auto split: if_splits)
    then show ?thesis using None
      by (simp add: audio_delay_line_resize_def peek_def poke_def)
  next
    case (Some m)
    then have m: "cells l = m" by (simp add: cells_def)
    have rd: "read_cells m ?p (?s - ?p) = Some (take (?s - ?p) (drop ?p m))"
      using p_le s_le m by (simp add: read_cells_def)
    have wr: "write_cells m ?p (take (?s - ?p) (drop ?p m)) = Some m"
      using p_le s_le m by (intro write_cells_same) simp
    have ps0: "size_l l = 0 \<Longrightarrow> pos l = 0" using ps by simp
    show ?thesis using le Some rd wr sp sub ps0
      by (simp add: audio_delay_line_resize_def peek_def poke_def Let_def not_less [symmetric])
  qed
qed

theorem resize_same_size_witness:
  "wf_line \<lparr>data = Some [3, 4, 5 :: int], size_l = 3, alloc_size = 3, pos = 1\<rparr>
   \<and> unat (pos \<lparr>data = Some [3, 4, 5 :: int], size_l = 3, alloc_size = 3, pos = 1\<rparr>) < 2 ^ 31
   \<and> audio_delay_line_resize \<lparr>data = Some [3, 4, 5 :: int], size_l = 3, alloc_size = 3, pos = 1\<rparr> 3 None
       = Some (0, \<lparr>data = Some [3, 4, 5], size_l = 3, alloc_size = 3, pos = 1\<rparr>)"
proof -
  let ?l = "\<lparr>data = Some [3, 4, 5 :: int], size_l = 3, alloc_size = 3, pos = 1\<rparr>"
  have w: "wf_line ?l" by (simp add: wf_line_def cells_def)
  have p: "unat (pos ?l) < 2 ^ 31" by simp
  have "audio_delay_line_resize ?l (size_l ?l) None = Some (0, ?l)"
    by (rule resize_same_size [OF w p])
  then show ?thesis using w p by simp
qed

text \<open>
  With the read position at \<open>2^31\<close> or above, \<^verbatim>\<open>int pos\<close> is negative and is clamped
  to 0; the \<^verbatim>\<open>memmove\<close> then copies \<open>size\<close> samples to \<^verbatim>\<open>data + line->pos\<close>, past the end
  of the block.
\<close>

lemma wf_far_line: "wf_line far_line"
  by (simp add: wf_line_def far_line_def cells_def)

theorem resize_same_size_counterexample:
  "wf_line far_line \<and> audio_delay_line_resize far_line (size_l far_line) None = None"
proof -
  have s: "sint (2147483648 :: 32 word) = - 2147483648" by simp
  have "audio_delay_line_resize far_line (size_l far_line) None = None"
    by (simp add: audio_delay_line_resize_def far_line_def Let_def s peek_def poke_def
        read_cells_def write_cells_def)
  then show ?thesis using wf_far_line by simp
qed


section \<open>Resizing a line that holds samples\<close>

text \<open>
  Claim C2 says that \<^verbatim>\<open>audio_delay_line_resize\<close> keeps the most recent
  \<open>min old new\<close> samples in order, drops only the oldest ones when it shrinks and pads
  the oldest end with silence when it grows.  The code does not: its \<^verbatim>\<open>memmove\<close> copies
  from the new read position to the old one.  A line of size 3 that was fed 1, 2, 3
  holds the history 1, 2, 3.  Shrunk to 2 it holds 1, 2: the newest sample is gone and
  the oldest is kept.  Grown to 4, with 7 standing for the indeterminate content of the
  new cell, it holds 3, 7, 7, 0: the samples 1 and 2 are overwritten, indeterminate
  memory is in the history and the silence is at the newest end.
\<close>

theorem resize_loses_history:
  "audio_delay_line_process \<lparr>data = Some [0, 0, 0 :: int], size_l = 3, alloc_size = 3, pos = 0\<rparr>
       [1, 2, 3] [9, 9, 9] 3
     = Some (\<lparr>data = Some [1, 2, 3], size_l = 3, alloc_size = 3, pos = 0\<rparr>, [0, 0, 0])
   \<and> history \<lparr>data = Some [1, 2, 3 :: int], size_l = 3, alloc_size = 3, pos = 0\<rparr> = [1, 2, 3]
   \<and> audio_delay_line_resize \<lparr>data = Some [1, 2, 3 :: int], size_l = 3, alloc_size = 3, pos = 0\<rparr>
       2 None
     = Some (0, \<lparr>data = Some [1, 2, 3], size_l = 2, alloc_size = 3, pos = 0\<rparr>)
   \<and> history \<lparr>data = Some [1, 2, 3 :: int], size_l = 2, alloc_size = 3, pos = 0\<rparr> = [1, 2]
   \<and> audio_delay_line_resize \<lparr>data = Some [1, 2, 3 :: int], size_l = 3, alloc_size = 3, pos = 0\<rparr>
       4 (Some (\<lambda>i. 7))
     = Some (0, \<lparr>data = Some [0, 3, 7, 7], size_l = 4, alloc_size = 4, pos = 1\<rparr>)
   \<and> history \<lparr>data = Some [0, 3, 7, 7 :: int], size_l = 4, alloc_size = 4, pos = 1\<rparr> = [3, 7, 7, 0]"
proof -
  have 1: "audio_delay_line_process \<lparr>data = Some [0, 0, 0 :: int], size_l = 3, alloc_size = 3, pos = 0\<rparr>
       [1, 2, 3] [9, 9, 9] 3
     = Some (\<lparr>data = Some [1, 2, 3], size_l = 3, alloc_size = 3, pos = 0\<rparr>, [0, 0, 0])"
    by (simp add: audio_delay_line_process_def Let_def peek_def poke_def read_cells_def
        write_cells_def)
  have 2: "audio_delay_line_resize \<lparr>data = Some [1, 2, 3 :: int], size_l = 3, alloc_size = 3, pos = 0\<rparr>
       2 None
     = Some (0, \<lparr>data = Some [1, 2, 3], size_l = 2, alloc_size = 3, pos = 0\<rparr>)"
    by (simp add: audio_delay_line_resize_def Let_def peek_def poke_def read_cells_def
        write_cells_def)
  have 3: "audio_delay_line_resize \<lparr>data = Some [1, 2, 3 :: int], size_l = 3, alloc_size = 3, pos = 0\<rparr>
       4 (Some (\<lambda>i. 7))
     = Some (0, \<lparr>data = Some [0, 3, 7, 7], size_l = 4, alloc_size = 4, pos = 1\<rparr>)"
    by (simp add: audio_delay_line_resize_def realloc_def Let_def peek_def poke_def
        read_cells_def write_cells_def upt_conv_Cons)
  show ?thesis
    by (intro conjI 1 2 3) (simp_all add: history_def cells_def)
qed

end
